theory Spec2Isabelle
  imports Complex_Main
begin

section \<open>Data model\<close>

text \<open>
  Python floats are modelled as \<^typ>\<open>real\<close>: rounding, infinities and NaN are not part
  of the model. Python ints are \<^typ>\<open>int\<close>.

  The statements of this theory are therefore about comparisons, the order of the effects,
  the errors raised and bounds. No statement is made about a number whose value the
  rounding of binary64 arithmetic decides: the emitted scroll amount as a number, and the
  factor by which one smoothing step shrinks the distance between cursor and target.

  \<^verbatim>\<open>LandmarkPoint\<close> (hand_tracker.py) has the fields x, y, z; they carry the prefix
  \<open>lm_\<close> here, since a record field named \<open>x\<close> would capture that variable name.
\<close>

record LandmarkPoint =
  lm_x :: real
  lm_y :: real
  lm_z :: real

text \<open>
  \<^verbatim>\<open>HandData.landmarks\<close> is annotated \<^verbatim>\<open>list[LandmarkPoint]\<close>; Python does not enforce
  the annotation, so an entry may be the null object: \<open>None\<close> here.
\<close>

record HandData =
  landmarks :: "LandmarkPoint option list"

record SmoothPoint =
  sp_x :: real
  sp_y :: real

record controller =
  camera_width :: int
  camera_height :: int
  smoothing_factor :: real
  margin :: int
  left_pinch_threshold :: real
  right_pinch_threshold :: real
  scroll_sensitivity :: int
  screen_width :: int
  screen_height :: int
  prev_cursor :: SmoothPoint
  scroll_history :: "real list"
  left_click_latched :: bool
  right_click_latched :: bool
  current_mode :: string

text \<open>The calls into pyautogui, in the order the controller makes them.\<close>

datatype button = LeftButton | RightButton

datatype event = MoveTo real real | Click button | Scroll int

text \<open>The exceptions the interpreter raises in \<^verbatim>\<open>update\<close>.\<close>

datatype py_error = IndexError | AttributeError | ZeroDivisionError

text \<open>
  A call either raises (\<open>Inl\<close>: the exception, the controller as the call left it and the
  events already sent) or returns (\<open>Inr\<close>: the controller and the events of the call).
\<close>

type_synonym outcome = "(py_error \<times> controller \<times> event list) + (controller \<times> event list)"

section \<open>utils.py\<close>

definition clamp :: "real \<Rightarrow> real \<Rightarrow> real \<Rightarrow> real" where
  "clamp v min_value max_value = max min_value (min v max_value)"

text \<open>
  \<^verbatim>\<open>lerp\<close> is exact here; the source rounds the subtraction, the product and the sum.
  Below it is used for the bounds of the cursor only.
\<close>

definition lerp :: "real \<Rightarrow> real \<Rightarrow> real \<Rightarrow> real" where
  "lerp start end' t = start + (end' - start) * t"

definition distance_2d :: "real \<Rightarrow> real \<Rightarrow> real \<Rightarrow> real \<Rightarrow> real" where
  "distance_2d x1 y1 x2 y2 = sqrt ((x2 - x1)\<^sup>2 + (y2 - y1)\<^sup>2)"

section \<open>Python primitives\<close>

text \<open>\<^verbatim>\<open>int(r)\<close> of a float truncates toward zero.\<close>

definition py_int :: "real \<Rightarrow> int" where
  "py_int r = (if r < 0 then \<lceil>r\<rceil> else \<lfloor>r\<rfloor>)"

text \<open>\<^verbatim>\<open>lm[i]\<close> for a literal index \<open>i \<ge> 0\<close>.\<close>

definition getitem :: "'a list \<Rightarrow> nat \<Rightarrow> py_error + 'a" where
  "getitem xs i = (if i < length xs then Inr (xs ! i) else Inl IndexError)"

text \<open>
  \<^verbatim>\<open>deque(maxlen=n).append(v)\<close>: the value goes in on the right and, when the deque
  then holds more than \<open>n\<close> items, the leftmost one is dropped.
\<close>

definition deque_append :: "nat \<Rightarrow> 'a list \<Rightarrow> 'a \<Rightarrow> 'a list" where
  "deque_append maxlen d v = (let d' = d @ [v] in if length d' > maxlen then tl d' else d')"

section \<open>gesture_controller.py\<close>

text \<open>
  \<^verbatim>\<open>__init__\<close>. The screen size is what \<^verbatim>\<open>pyautogui.size()\<close> returns; it is a
  parameter here. The constructor has no \<^verbatim>\<open>raise\<close> and no check of its arguments.
\<close>

definition init :: "int \<times> int \<Rightarrow> int \<Rightarrow> int \<Rightarrow> real \<Rightarrow> int \<Rightarrow> real \<Rightarrow> real \<Rightarrow> int \<Rightarrow> controller" where
  "init screen_size cam_w cam_h smoothing movement_margin pinch_click_threshold
        pinch_right_click_threshold sensitivity =
     \<lparr> camera_width = cam_w,
       camera_height = cam_h,
       smoothing_factor = smoothing,
       margin = movement_margin,
       left_pinch_threshold = pinch_click_threshold,
       right_pinch_threshold = pinch_right_click_threshold,
       scroll_sensitivity = sensitivity,
       screen_width = fst screen_size,
       screen_height = snd screen_size,
       prev_cursor = \<lparr> sp_x = real_of_int (fst screen_size) / 2,
                       sp_y = real_of_int (snd screen_size) / 2 \<rparr>,
       scroll_history = [],
       left_click_latched = False,
       right_click_latched = False,
       current_mode = ''Idle'' \<rparr>"

text \<open>
  \<^verbatim>\<open>_move_cursor\<close>, the local \<^verbatim>\<open>target_x\<close>: the division of a float by the int
  \<^verbatim>\<open>max_x - min_x\<close> raises ZeroDivisionError when that int is 0.
\<close>

definition target_x :: "controller \<Rightarrow> real \<Rightarrow> py_error + real" where
  "target_x c finger_x =
     (let cam_x = finger_x * real_of_int (camera_width c);
          min_x = margin c;
          max_x = camera_width c - margin c;
          cam_x = clamp cam_x (real_of_int min_x) (real_of_int max_x)
      in if max_x - min_x = 0 then Inl ZeroDivisionError
         else Inr ((cam_x - real_of_int min_x) / real_of_int (max_x - min_x)
                     * real_of_int (screen_width c)))"

definition target_y :: "controller \<Rightarrow> real \<Rightarrow> py_error + real" where
  "target_y c finger_y =
     (let cam_y = finger_y * real_of_int (camera_height c);
          min_y = margin c;
          max_y = camera_height c - margin c;
          cam_y = clamp cam_y (real_of_int min_y) (real_of_int max_y)
      in if max_y - min_y = 0 then Inl ZeroDivisionError
         else Inr ((cam_y - real_of_int min_y) / real_of_int (max_y - min_y)
                     * real_of_int (screen_height c)))"

text \<open>
  \<^verbatim>\<open>_move_cursor\<close>: both targets are computed before \<^verbatim>\<open>prev_cursor\<close> is assigned and
  before \<^verbatim>\<open>pyautogui.moveTo\<close> is called, so a ZeroDivisionError leaves the controller
  as it was and sends nothing.
\<close>

definition move_cursor :: "controller \<Rightarrow> real \<Rightarrow> real \<Rightarrow> outcome" where
  "move_cursor c finger_x finger_y =
     (case target_x c finger_x of
        Inl e \<Rightarrow> Inl (e, c, [])
      | Inr tx \<Rightarrow>
     (case target_y c finger_y of
        Inl e \<Rightarrow> Inl (e, c, [])
      | Inr ty \<Rightarrow>
         (let smooth_x = lerp (sp_x (prev_cursor c)) tx (smoothing_factor c);
              smooth_y = lerp (sp_y (prev_cursor c)) ty (smoothing_factor c)
          in Inr (c\<lparr>prev_cursor := \<lparr> sp_x = smooth_x, sp_y = smooth_y \<rparr>\<rparr>,
                  [MoveTo smooth_x smooth_y]))))"

text \<open>
  \<^verbatim>\<open>_handle_scroll\<close>; \<^verbatim>\<open>scroll_history\<close> is a \<^verbatim>\<open>deque(maxlen=5)\<close>. The average, the
  delta and the product are exact here. The source rounds each operation, so that its
  \<^verbatim>\<open>int(...)\<close> can differ by one from \<open>scroll_amount\<close> below when the product lies next to
  an integer, and it raises OverflowError for an int sensitivity beyond the range of a
  float. Below, \<^verbatim>\<open>_handle_scroll\<close> is used for the sample it appends, the length of the
  history and the guard on the amount; the amount as a number is not stated.
\<close>

definition handle_scroll :: "controller \<Rightarrow> real \<Rightarrow> real \<Rightarrow> controller \<times> event list" where
  "handle_scroll c index_y middle_y =
     (let avg_y = (index_y + middle_y) / 2;
          h = deque_append 5 (scroll_history c) avg_y;
          c' = c\<lparr>scroll_history := h\<rparr>
      in if length h < 2 then (c', [])
         else
           (let delta = h ! (length h - 2) - h ! (length h - 1);
                scroll_amount = py_int (delta * real_of_int (scroll_sensitivity c) * 100)
            in if \<bar>scroll_amount\<bar> > 1 then (c', [Scroll scroll_amount]) else (c', [])))"

text \<open>The four blocks of \<^verbatim>\<open>update\<close> that follow the pinch distances, in source order.\<close>

definition scroll_gate ::
  "bool \<Rightarrow> bool \<Rightarrow> real \<Rightarrow> real \<Rightarrow> real \<Rightarrow> controller \<Rightarrow> controller \<times> event list" where
  "scroll_gate index_extended middle_extended left_pinch_dist index_y middle_y c =
     (if index_extended \<and> middle_extended \<and> left_pinch_dist > left_pinch_threshold c
      then (case handle_scroll c index_y middle_y of
              (c', evs) \<Rightarrow> (c'\<lparr>current_mode := ''Scroll''\<rparr>, evs))
      else (c\<lparr>scroll_history := []\<rparr>, []))"

definition left_click_edge :: "real \<Rightarrow> controller \<Rightarrow> controller \<times> event list" where
  "left_click_edge left_pinch_dist c =
     (if left_pinch_dist < left_pinch_threshold c \<and> \<not> left_click_latched c
      then (c\<lparr>left_click_latched := True, current_mode := ''Left Click''\<rparr>, [Click LeftButton])
      else if left_pinch_dist \<ge> left_pinch_threshold c
      then (c\<lparr>left_click_latched := False\<rparr>, [])
      else (c, []))"

definition right_click_edge :: "real \<Rightarrow> controller \<Rightarrow> controller \<times> event list" where
  "right_click_edge right_pinch_dist c =
     (if right_pinch_dist < right_pinch_threshold c \<and> \<not> right_click_latched c
      then (c\<lparr>right_click_latched := True, current_mode := ''Right Click''\<rparr>, [Click RightButton])
      else if right_pinch_dist \<ge> right_pinch_threshold c
      then (c\<lparr>right_click_latched := False\<rparr>, [])
      else (c, []))"

definition default_mode :: "bool \<Rightarrow> bool \<Rightarrow> real \<Rightarrow> real \<Rightarrow> controller \<Rightarrow> controller" where
  "default_mode index_extended middle_extended left_pinch_dist right_pinch_dist c =
     (if left_pinch_dist \<ge> left_pinch_threshold c
         \<and> right_pinch_dist \<ge> right_pinch_threshold c
         \<and> \<not> (index_extended \<and> middle_extended)
      then c\<lparr>current_mode := ''Move''\<rparr> else c)"

text \<open>
  \<^verbatim>\<open>update\<close> from the computation of the pinch distances on: the thumb tip, the index
  tip and the middle tip are objects here, and nothing in this part raises.
\<close>

definition gestures ::
  "LandmarkPoint \<Rightarrow> LandmarkPoint \<Rightarrow> LandmarkPoint \<Rightarrow> bool \<Rightarrow> bool \<Rightarrow> controller
     \<Rightarrow> controller \<times> event list" where
  "gestures thumb_tip index_tip middle_tip index_extended middle_extended c =
     (let left_pinch_dist =
            distance_2d (lm_x thumb_tip) (lm_y thumb_tip) (lm_x index_tip) (lm_y index_tip);
          right_pinch_dist =
            distance_2d (lm_x thumb_tip) (lm_y thumb_tip) (lm_x middle_tip) (lm_y middle_tip)
      in case scroll_gate index_extended middle_extended left_pinch_dist
                (lm_y index_tip) (lm_y middle_tip) c of (c1, ev1) \<Rightarrow>
         (case left_click_edge left_pinch_dist c1 of (c2, ev2) \<Rightarrow>
         (case right_click_edge right_pinch_dist c2 of (c3, ev3) \<Rightarrow>
            (default_mode index_extended middle_extended left_pinch_dist right_pinch_dist c3,
             ev1 @ ev2 @ ev3))))"

text \<open>
  \<^verbatim>\<open>update\<close>. The five subscripts come first (IndexError on a short list, nothing
  touched yet); then \<^verbatim>\<open>index_tip.y\<close>, \<^verbatim>\<open>index_pip.y\<close>, \<^verbatim>\<open>middle_tip.y\<close> and
  \<^verbatim>\<open>middle_pip.y\<close> are read (AttributeError on a null entry, nothing touched yet);
  then the cursor moves; only then is \<^verbatim>\<open>thumb_tip.x\<close> read, so a null thumb tip raises
  after the cursor has moved.
\<close>

definition update :: "controller \<Rightarrow> HandData \<Rightarrow> outcome" where
  "update c hand =
     (let lm = landmarks hand in
      case getitem lm 4 of Inl e \<Rightarrow> Inl (e, c, []) | Inr thumb_tip \<Rightarrow>
     (case getitem lm 8 of Inl e \<Rightarrow> Inl (e, c, []) | Inr index_tip \<Rightarrow>
     (case getitem lm 6 of Inl e \<Rightarrow> Inl (e, c, []) | Inr index_pip \<Rightarrow>
     (case getitem lm 12 of Inl e \<Rightarrow> Inl (e, c, []) | Inr middle_tip \<Rightarrow>
     (case getitem lm 10 of Inl e \<Rightarrow> Inl (e, c, []) | Inr middle_pip \<Rightarrow>
     (case index_tip of None \<Rightarrow> Inl (AttributeError, c, []) | Some it \<Rightarrow>
     (case index_pip of None \<Rightarrow> Inl (AttributeError, c, []) | Some ip \<Rightarrow>
     (case middle_tip of None \<Rightarrow> Inl (AttributeError, c, []) | Some mt \<Rightarrow>
     (case middle_pip of None \<Rightarrow> Inl (AttributeError, c, []) | Some mp \<Rightarrow>
       (let index_extended = lm_y it < lm_y ip;
            middle_extended = lm_y mt < lm_y mp
        in case move_cursor c (lm_x it) (lm_y it) of
             Inl err \<Rightarrow> Inl err
           | Inr (c0, ev0) \<Rightarrow>
            (case thumb_tip of
               None \<Rightarrow> Inl (AttributeError, c0, ev0)
             | Some tt \<Rightarrow>
                (case gestures tt it mt index_extended middle_extended c0 of
                   (c', evs) \<Rightarrow> Inr (c', ev0 @ evs)))))))))))))"

text \<open>
  The main loop calls \<^verbatim>\<open>update\<close> once for every frame with a hand; an exception leaves
  the loop. \<open>run\<close> makes the calls in order and keeps the events of each call apart.
\<close>

fun run :: "controller \<Rightarrow> HandData list
              \<Rightarrow> (py_error \<times> controller \<times> event list list) + (controller \<times> event list list)" where
  "run c [] = Inr (c, [])"
| "run c (h # hs) =
     (case update c h of
        Inl (e, c', evs) \<Rightarrow> Inl (e, c', [evs])
      | Inr (c', evs) \<Rightarrow>
         (case run c' hs of
            Inl (e, c'', evss) \<Rightarrow> Inl (e, c'', evs # evss)
          | Inr (c'', evss) \<Rightarrow> Inr (c'', evs # evss)))"

section \<open>What a frame and a call look like from outside\<close>

text \<open>
  The statements below speak of a frame through the five joints \<^verbatim>\<open>update\<close> reads
  (thumb tip 4, index tip 8, index PIP 6, middle tip 12, middle PIP 10). \<open>frame_ok\<close>
  says that the five are there; \<open>joint\<close> reads one of them in such a frame.
\<close>

definition joint :: "HandData \<Rightarrow> nat \<Rightarrow> LandmarkPoint" where
  "joint h i = the (landmarks h ! i)"

definition frame_ok :: "HandData \<Rightarrow> bool" where
  "frame_ok h = (12 < length (landmarks h) \<and> landmarks h ! 4 \<noteq> None \<and> landmarks h ! 8 \<noteq> None
      \<and> landmarks h ! 6 \<noteq> None \<and> landmarks h ! 12 \<noteq> None \<and> landmarks h ! 10 \<noteq> None)"

text \<open>The locals of \<^verbatim>\<open>update\<close> of the same names, as functions of the frame.\<close>

definition left_pinch_dist :: "HandData \<Rightarrow> real" where
  "left_pinch_dist h = distance_2d (lm_x (joint h 4)) (lm_y (joint h 4)) (lm_x (joint h 8)) (lm_y (joint h 8))"

definition right_pinch_dist :: "HandData \<Rightarrow> real" where
  "right_pinch_dist h = distance_2d (lm_x (joint h 4)) (lm_y (joint h 4)) (lm_x (joint h 12)) (lm_y (joint h 12))"

definition index_extended :: "HandData \<Rightarrow> bool" where
  "index_extended h = (lm_y (joint h 8) < lm_y (joint h 6))"

definition middle_extended :: "HandData \<Rightarrow> bool" where
  "middle_extended h = (lm_y (joint h 12) < lm_y (joint h 10))"

text \<open>
  The condition of the scroll branch of \<^verbatim>\<open>update\<close>, and the locals \<^verbatim>\<open>avg_y\<close> and
  \<^verbatim>\<open>scroll_amount\<close> of \<^verbatim>\<open>_handle_scroll\<close> for the frame.
\<close>

definition scroll_active :: "controller \<Rightarrow> HandData \<Rightarrow> bool" where
  "scroll_active c h = (index_extended h \<and> middle_extended h \<and> left_pinch_dist h > left_pinch_threshold c)"

definition avg_y :: "HandData \<Rightarrow> real" where
  "avg_y h = (lm_y (joint h 8) + lm_y (joint h 12)) / 2"

definition scroll_amount :: "controller \<Rightarrow> HandData \<Rightarrow> int" where
  "scroll_amount c h =
     (let hist = deque_append 5 (scroll_history c) (avg_y h)
      in py_int ((hist ! (length hist - 2) - hist ! (length hist - 1))
                   * real_of_int (scroll_sensitivity c) * 100))"

definition is_scroll :: "event \<Rightarrow> bool" where
  "is_scroll e = (case e of Scroll a \<Rightarrow> True | _ \<Rightarrow> False)"

text \<open>
  Neither divisor of \<^verbatim>\<open>_move_cursor\<close> is 0; the controller after \<^verbatim>\<open>_move_cursor\<close>
  with the targets \<open>tx\<close> and \<open>ty\<close>; two controllers with the same configuration.
\<close>

definition no_zero_div :: "controller \<Rightarrow> bool" where
  "no_zero_div c = (camera_width c \<noteq> 2 * margin c \<and> camera_height c \<noteq> 2 * margin c)"

definition moved :: "controller \<Rightarrow> real \<Rightarrow> real \<Rightarrow> controller" where
  "moved c tx ty = c\<lparr>prev_cursor := \<lparr> sp_x = lerp (sp_x (prev_cursor c)) tx (smoothing_factor c),
                                      sp_y = lerp (sp_y (prev_cursor c)) ty (smoothing_factor c) \<rparr>\<rparr>"

definition same_config :: "controller \<Rightarrow> controller \<Rightarrow> bool" where
  "same_config c c' = (camera_width c' = camera_width c \<and> camera_height c' = camera_height c
     \<and> smoothing_factor c' = smoothing_factor c \<and> margin c' = margin c
     \<and> left_pinch_threshold c' = left_pinch_threshold c
     \<and> right_pinch_threshold c' = right_pinch_threshold c
     \<and> scroll_sensitivity c' = scroll_sensitivity c
     \<and> screen_width c' = screen_width c \<and> screen_height c' = screen_height c)"

text \<open>
  The edge trigger as the specification words it: an event when the distance is below the
  threshold and the latch is clear; afterwards the latch is set exactly when the distance
  is below the threshold. The result is the number of events of each frame.
\<close>

fun edge_counts :: "bool \<Rightarrow> real \<Rightarrow> real list \<Rightarrow> nat list" where
  "edge_counts latched thr [] = []"
| "edge_counts latched thr (d # ds) =
     (if d < thr \<and> \<not> latched then 1 else 0) # edge_counts (d < thr) thr ds"

text \<open>
  A point lies on the screen of the controller; the stored cursor does; every pointer move
  among the events does. A configuration as the specification asks for it: the margin
  leaves an active region, the smoothing factor lies strictly between 0 and 1, and the
  screen size that the operating system reports is not negative.
\<close>

definition in_screen :: "controller \<Rightarrow> real \<Rightarrow> real \<Rightarrow> bool" where
  "in_screen c px py = (0 \<le> px \<and> px \<le> real_of_int (screen_width c)
                         \<and> 0 \<le> py \<and> py \<le> real_of_int (screen_height c))"

definition cursor_ok :: "controller \<Rightarrow> bool" where
  "cursor_ok c = in_screen c (sp_x (prev_cursor c)) (sp_y (prev_cursor c))"

definition moves_ok :: "controller \<Rightarrow> event list \<Rightarrow> bool" where
  "moves_ok c evs = (\<forall>e \<in> set evs. case e of MoveTo px py \<Rightarrow> in_screen c px py | _ \<Rightarrow> True)"

definition valid_config :: "controller \<Rightarrow> bool" where
  "valid_config c = (2 * margin c < min (camera_width c) (camera_height c)
                      \<and> 0 < smoothing_factor c \<and> smoothing_factor c < 1
                      \<and> 0 \<le> screen_width c \<and> 0 \<le> screen_height c)"

text \<open>The controller and the events of a run, whether it returned or raised.\<close>

definition run_state ::
  "(py_error \<times> controller \<times> event list list) + (controller \<times> event list list)
     \<Rightarrow> controller \<times> event list list" where
  "run_state r = (case r of Inl (e, c, evss) \<Rightarrow> (c, evss) | Inr x \<Rightarrow> x)"

text \<open>
  The index and middle joints, which \<^verbatim>\<open>update\<close> reads before it moves the cursor, are
  there.
\<close>

definition fingers_ok :: "HandData \<Rightarrow> bool" where
  "fingers_ok h = (12 < length (landmarks h) \<and> landmarks h ! 8 \<noteq> None \<and> landmarks h ! 6 \<noteq> None
      \<and> landmarks h ! 12 \<noteq> None \<and> landmarks h ! 10 \<noteq> None)"

section \<open>Concrete inputs\<close>

text \<open>
  A full frame of 21 joints with the five that matter given, and the controller that
  main.py constructs, on a screen of 1920 by 1080 pixels.
\<close>

definition pt :: "real \<Rightarrow> real \<Rightarrow> LandmarkPoint" where
  "pt a b = \<lparr> lm_x = a, lm_y = b, lm_z = 0 \<rparr>"

definition mk_frame ::
  "LandmarkPoint \<Rightarrow> LandmarkPoint \<Rightarrow> LandmarkPoint \<Rightarrow> LandmarkPoint \<Rightarrow> LandmarkPoint \<Rightarrow> HandData" where
  "mk_frame thumb_tip index_tip index_pip middle_tip middle_pip =
     \<lparr> landmarks =
         [Some (pt 0 0), Some (pt 0 0), Some (pt 0 0), Some (pt 0 0), Some thumb_tip,
          Some (pt 0 0), Some index_pip, Some (pt 0 0), Some index_tip, Some (pt 0 0),
          Some middle_pip, Some (pt 0 0), Some middle_tip, Some (pt 0 0), Some (pt 0 0),
          Some (pt 0 0), Some (pt 0 0), Some (pt 0 0), Some (pt 0 0), Some (pt 0 0),
          Some (pt 0 0)] \<rparr>"

definition main_controller :: controller where
  "main_controller = init (1920, 1080) 1280 720 0.25 120 0.035 0.04 35"

text \<open>
  A frame whose thumb-index distance is \<open>\<bar>d\<bar>\<close>, with the index finger folded and the
  middle fingertip far from the thumb.
\<close>

definition pinch_frame :: "real \<Rightarrow> HandData" where
  "pinch_frame d = mk_frame (pt 0.5 0.5) (pt (0.5 + d) 0.5) (pt 0.5 0.4) (pt 0.5 0.9) (pt 0.5 0.8)"

text \<open>
  A frame with both fingers extended, the thumb 0.1 from the index tip and 0.2 from the
  middle tip, and the fingertip average at height \<open>v\<close>.
\<close>

definition scroll_frame :: "real \<Rightarrow> HandData" where
  "scroll_frame v = mk_frame (pt 0.5 (v - 0.1)) (pt 0.6 (v - 0.1)) (pt 0.6 (v + 0.2))
                             (pt 0.5 (v + 0.1)) (pt 0.5 (v + 0.3))"

text \<open>
  A frame with the thumb tip 0.02 from the index tip and 0.03 from the middle tip.
\<close>

definition double_pinch_frame :: HandData where
  "double_pinch_frame = mk_frame (pt 0.5 0.5) (pt 0.52 0.5) (pt 0.52 0.4) (pt 0.5 0.53) (pt 0.5 0.4)"

text \<open>
  A frame whose index fingertip lies outside the camera image, to the right of it and
  above it.
\<close>

definition outside_frame :: HandData where
  "outside_frame = mk_frame (pt 0.5 0.5) (pt 1.5 (- 0.2)) (pt 1.5 0.4) (pt 0.5 0.9) (pt 0.5 0.8)"

text \<open>The first 13 joints of a full frame; and a full frame whose thumb tip is null.\<close>

definition short_frame :: HandData where
  "short_frame = \<lparr> landmarks = take 13 (landmarks (pinch_frame 0.05)) \<rparr>"

definition no_thumb_frame :: HandData where
  "no_thumb_frame = \<lparr> landmarks = (landmarks (pinch_frame 0.05)) [4 := None] \<rparr>"

section \<open>Lemmas\<close>

lemma target_x_Inr: "camera_width c \<noteq> 2 * margin c \<Longrightarrow> \<exists>tx. target_x c fx = Inr tx"
  by (simp add: target_x_def Let_def)

lemma target_y_Inr: "camera_height c \<noteq> 2 * margin c \<Longrightarrow> \<exists>ty. target_y c fy = Inr ty"
  by (simp add: target_y_def Let_def)

lemma update_frame_ok:
  assumes "frame_ok h"
      and "target_x c (lm_x (joint h 8)) = Inr tx"
      and "target_y c (lm_y (joint h 8)) = Inr ty"
  shows "update c h =
     Inr (fst (gestures (joint h 4) (joint h 8) (joint h 12) (index_extended h) (middle_extended h) (moved c tx ty)),
          MoveTo (sp_x (prev_cursor (moved c tx ty))) (sp_y (prev_cursor (moved c tx ty)))
            # snd (gestures (joint h 4) (joint h 8) (joint h 12) (index_extended h) (middle_extended h) (moved c tx ty)))"
  using assms
  by (auto simp: frame_ok_def update_def getitem_def joint_def move_cursor_def moved_def
        index_extended_def middle_extended_def Let_def split: prod.splits)

lemma update_Inr_frame_ok:
  assumes "update c h = Inr (c', evs)"
  shows "frame_ok h \<and> (\<exists>tx ty. target_x c (lm_x (joint h 8)) = Inr tx \<and> target_y c (lm_y (joint h 8)) = Inr ty)"
  using assms
  by (auto simp: frame_ok_def update_def getitem_def joint_def move_cursor_def
        Let_def split: prod.splits sum.splits option.splits if_splits)

lemmas block_defs = gestures_def scroll_gate_def handle_scroll_def left_click_edge_def
  right_click_edge_def default_mode_def

lemma gestures_same_config: "same_config c (fst (gestures tt it mt ie me c))"
  by (simp add: block_defs same_config_def Let_def split: prod.splits)

lemma gestures_prev_cursor: "prev_cursor (fst (gestures tt it mt ie me c)) = prev_cursor c"
  by (simp add: block_defs Let_def split: prod.splits)

lemma gestures_left_latch:
  "left_click_latched (fst (gestures tt it mt ie me c))
     = (distance_2d (lm_x tt) (lm_y tt) (lm_x it) (lm_y it) < left_pinch_threshold c)"
  by (auto simp add: block_defs Let_def split: prod.splits)

lemma gestures_right_latch:
  "right_click_latched (fst (gestures tt it mt ie me c))
     = (distance_2d (lm_x tt) (lm_y tt) (lm_x mt) (lm_y mt) < right_pinch_threshold c)"
  by (auto simp add: block_defs Let_def split: prod.splits)

lemma gestures_left_count:
  "count_list (snd (gestures tt it mt ie me c)) (Click LeftButton)
     = (if distance_2d (lm_x tt) (lm_y tt) (lm_x it) (lm_y it) < left_pinch_threshold c
           \<and> \<not> left_click_latched c then 1 else 0)"
  by (simp add: block_defs Let_def split: prod.splits)

lemma gestures_right_count:
  "count_list (snd (gestures tt it mt ie me c)) (Click RightButton)
     = (if distance_2d (lm_x tt) (lm_y tt) (lm_x mt) (lm_y mt) < right_pinch_threshold c
           \<and> \<not> right_click_latched c then 1 else 0)"
  by (simp add: block_defs Let_def split: prod.splits)

lemma gestures_history:
  "scroll_history (fst (gestures tt it mt ie me c))
     = (if ie \<and> me \<and> distance_2d (lm_x tt) (lm_y tt) (lm_x it) (lm_y it) > left_pinch_threshold c
        then deque_append 5 (scroll_history c) ((lm_y it + lm_y mt) / 2) else [])"
  by (simp add: block_defs Let_def split: prod.splits)

lemma gestures_scroll_events:
  "filter (\<lambda>e. case e of Scroll a \<Rightarrow> True | _ \<Rightarrow> False) (snd (gestures tt it mt ie me c))
     = (let h = deque_append 5 (scroll_history c) ((lm_y it + lm_y mt) / 2);
            amt = py_int ((h ! (length h - 2) - h ! (length h - 1)) * real_of_int (scroll_sensitivity c) * 100)
        in if ie \<and> me \<and> distance_2d (lm_x tt) (lm_y tt) (lm_x it) (lm_y it) > left_pinch_threshold c
              \<and> 2 \<le> length h \<and> 1 < \<bar>amt\<bar>
           then [Scroll amt] else [])"
  by (simp add: block_defs Let_def split: prod.splits)

lemma update_Inr_gestures:
  assumes "update c h = Inr (c', evs)"
  obtains tx ty where "frame_ok h"
    and "target_x c (lm_x (joint h 8)) = Inr tx" and "target_y c (lm_y (joint h 8)) = Inr ty"
    and "c' = fst (gestures (joint h 4) (joint h 8) (joint h 12) (index_extended h) (middle_extended h) (moved c tx ty))"
    and "evs = MoveTo (sp_x (prev_cursor (moved c tx ty))) (sp_y (prev_cursor (moved c tx ty)))
            # snd (gestures (joint h 4) (joint h 8) (joint h 12) (index_extended h) (middle_extended h) (moved c tx ty))"
proof -
  from update_Inr_frame_ok [OF assms] obtain tx ty where
    ok: "frame_ok h" and tx: "target_x c (lm_x (joint h 8)) = Inr tx"
    and ty: "target_y c (lm_y (joint h 8)) = Inr ty" by blast
  from update_frame_ok [OF ok tx ty] assms that [OF ok tx ty] show thesis by simp
qed

lemma moved_simps [simp]:
  "left_pinch_threshold (moved c tx ty) = left_pinch_threshold c"
  "right_pinch_threshold (moved c tx ty) = right_pinch_threshold c"
  "left_click_latched (moved c tx ty) = left_click_latched c"
  "right_click_latched (moved c tx ty) = right_click_latched c"
  "scroll_history (moved c tx ty) = scroll_history c"
  "scroll_sensitivity (moved c tx ty) = scroll_sensitivity c"
  "same_config c (moved c tx ty)"
  by (simp_all add: moved_def same_config_def)

lemma same_config_trans: "same_config a b \<Longrightarrow> same_config b c \<Longrightarrow> same_config a c"
  by (simp add: same_config_def)

lemma same_config_refl: "same_config a a"
  by (simp add: same_config_def)

lemma update_same_config: "update c h = Inr (c', evs) \<Longrightarrow> same_config c c'"
  by (erule update_Inr_gestures) (metis gestures_same_config moved_simps(7) same_config_trans)

lemma update_left_latch:
  "update c h = Inr (c', evs) \<Longrightarrow> left_click_latched c' = (left_pinch_dist h < left_pinch_threshold c)"
  by (erule update_Inr_gestures) (simp add: gestures_left_latch left_pinch_dist_def)

lemma update_right_latch:
  "update c h = Inr (c', evs) \<Longrightarrow> right_click_latched c' = (right_pinch_dist h < right_pinch_threshold c)"
  by (erule update_Inr_gestures) (simp add: gestures_right_latch right_pinch_dist_def)

lemma update_left_count:
  "update c h = Inr (c', evs) \<Longrightarrow> count_list evs (Click LeftButton)
     = (if left_pinch_dist h < left_pinch_threshold c \<and> \<not> left_click_latched c then 1 else 0)"
  by (erule update_Inr_gestures) (simp add: gestures_left_count left_pinch_dist_def)

lemma update_right_count:
  "update c h = Inr (c', evs) \<Longrightarrow> count_list evs (Click RightButton)
     = (if right_pinch_dist h < right_pinch_threshold c \<and> \<not> right_click_latched c then 1 else 0)"
  by (erule update_Inr_gestures) (simp add: gestures_right_count right_pinch_dist_def)

lemma update_history:
  "update c h = Inr (c', evs) \<Longrightarrow> scroll_history c'
     = (if scroll_active c h then deque_append 5 (scroll_history c) (avg_y h) else [])"
  by (erule update_Inr_gestures) (simp add: gestures_history left_pinch_dist_def scroll_active_def avg_y_def)

lemma update_scroll_events:
  "update c h = Inr (c', evs) \<Longrightarrow> filter is_scroll evs
     = (if scroll_active c h \<and> 2 \<le> length (deque_append 5 (scroll_history c) (avg_y h))
           \<and> 1 < \<bar>scroll_amount c h\<bar>
        then [Scroll (scroll_amount c h)] else [])"
  apply (erule update_Inr_gestures)
  using gestures_scroll_events
  apply (simp add: is_scroll_def [abs_def] left_pinch_dist_def scroll_active_def avg_y_def scroll_amount_def Let_def)
  done

lemma update_ok_Inr:
  assumes "frame_ok h" "no_zero_div c"
  shows "\<exists>c' evs. update c h = Inr (c', evs)"
proof -
  from assms(2) obtain tx ty where "target_x c (lm_x (joint h 8)) = Inr tx"
     "target_y c (lm_y (joint h 8)) = Inr ty"
    unfolding no_zero_div_def using target_x_Inr target_y_Inr by meson
  from update_frame_ok [OF assms(1) this] show ?thesis by blast
qed

lemma no_zero_div_cong: "same_config c c' \<Longrightarrow> no_zero_div c' = no_zero_div c"
  by (simp add: same_config_def no_zero_div_def)

lemma run_ok_Inr:
  "list_all frame_ok hs \<Longrightarrow> no_zero_div c \<Longrightarrow> \<exists>c' evss. run c hs = Inr (c', evss)"
proof (induction hs arbitrary: c)
  case Nil
  then show ?case by simp
next
  case (Cons h hs)
  then obtain c1 ev1 where u: "update c h = Inr (c1, ev1)" using update_ok_Inr by fastforce
  then have "no_zero_div c1" using Cons.prems(2) no_zero_div_cong update_same_config by blast
  with Cons obtain c2 evss where "run c1 hs = Inr (c2, evss)" by fastforce
  with u show ?case by simp
qed

lemma run_Cons_Inr:
  assumes "run c (h # hs) = Inr (c', evss)"
  obtains c1 ev1 evs1 where "update c h = Inr (c1, ev1)" "run c1 hs = Inr (c', evs1)" "evss = ev1 # evs1"
  using assms by (auto split: sum.splits prod.splits)

lemma run_left_counts:
  "run c hs = Inr (c', evss) \<Longrightarrow>
     map (\<lambda>evs. count_list evs (Click LeftButton)) evss
       = edge_counts (left_click_latched c) (left_pinch_threshold c) (map left_pinch_dist hs)"
proof (induction hs arbitrary: c evss)
  case Nil
  then show ?case by simp
next
  case (Cons h hs)
  from Cons.prems obtain c1 ev1 evs1 where u: "update c h = Inr (c1, ev1)"
    and r: "run c1 hs = Inr (c', evs1)" and e: "evss = ev1 # evs1"
    by (rule run_Cons_Inr)
  have thr: "left_pinch_threshold c1 = left_pinch_threshold c"
    using update_same_config [OF u] by (simp add: same_config_def)
  show ?case
    using Cons.IH [OF r] update_left_count [OF u] update_left_latch [OF u] thr e by simp
qed

lemma mk_frame_simps [simp]:
  "frame_ok (mk_frame tt it ip mt mp)"
  "length (landmarks (mk_frame tt it ip mt mp)) = 21"
  "joint (mk_frame tt it ip mt mp) 4 = tt"
  "joint (mk_frame tt it ip mt mp) 8 = it"
  "joint (mk_frame tt it ip mt mp) 6 = ip"
  "joint (mk_frame tt it ip mt mp) 12 = mt"
  "joint (mk_frame tt it ip mt mp) 10 = mp"
  by (simp_all add: mk_frame_def frame_ok_def joint_def)

lemma pt_simps [simp]: "lm_x (pt a b) = a" "lm_y (pt a b) = b"
  by (simp_all add: pt_def)

lemma distance_2d_same_y [simp]: "distance_2d x1 y1 x2 y1 = \<bar>x2 - x1\<bar>"
  by (simp add: distance_2d_def)

lemma distance_2d_same_x [simp]: "distance_2d x1 y1 x1 y2 = \<bar>y2 - y1\<bar>"
  by (simp add: distance_2d_def)

lemma main_controller_simps [simp]:
  "no_zero_div main_controller"
  "left_pinch_threshold main_controller = 0.035"
  "right_pinch_threshold main_controller = 0.04"
  "\<not> left_click_latched main_controller"
  "\<not> right_click_latched main_controller"
  "scroll_history main_controller = []"
  by (simp_all add: main_controller_def init_def no_zero_div_def)

lemma pinch_frame_simps [simp]:
  "frame_ok (pinch_frame d)"
  "left_pinch_dist (pinch_frame d) = \<bar>d\<bar>"
  "right_pinch_dist (pinch_frame d) = 0.4"
  "\<not> index_extended (pinch_frame d)"
  by (simp_all add: pinch_frame_def left_pinch_dist_def right_pinch_dist_def index_extended_def)

lemma deque_append_length: "length d \<le> n \<Longrightarrow> length (deque_append n d v) \<le> n"
  by (simp add: deque_append_def Let_def)

lemma deque_append_last: "0 < n \<Longrightarrow> last (deque_append n d v) = v"
  by (cases d) (auto simp: deque_append_def Let_def last_tl)

lemma is_scroll_simps [simp]:
  "is_scroll (Scroll a)" "\<not> is_scroll (MoveTo u v)" "\<not> is_scroll (Click b)"
  by (simp_all add: is_scroll_def)

lemma is_scroll_mem: "(\<exists>a. Scroll a \<in> set evs) \<longleftrightarrow> filter is_scroll evs \<noteq> []"
proof
  assume "\<exists>a. Scroll a \<in> set evs"
  then show "filter is_scroll evs \<noteq> []"
    by (force simp: filter_empty_conv)
next
  assume "filter is_scroll evs \<noteq> []"
  then obtain e where e: "e \<in> set evs" "is_scroll e"
    by (auto simp: filter_empty_conv)
  then show "\<exists>a. Scroll a \<in> set evs"
    by (metis event.exhaust is_scroll_simps(2,3))
qed

lemma scroll_frame_simps [simp]:
  "frame_ok (scroll_frame v)"
  "left_pinch_dist (scroll_frame v) = 0.1"
  "right_pinch_dist (scroll_frame v) = 0.2"
  "index_extended (scroll_frame v)"
  "middle_extended (scroll_frame v)"
  "avg_y (scroll_frame v) = v"
  by (simp_all add: scroll_frame_def left_pinch_dist_def right_pinch_dist_def index_extended_def
        middle_extended_def avg_y_def)

lemma update_Inl_history:
  "update c h = Inl (e, c', evs) \<Longrightarrow> scroll_history c' = scroll_history c"
  by (auto simp: update_def getitem_def move_cursor_def Let_def
        split: prod.splits sum.splits option.splits if_splits)

lemma update_history_length:
  assumes "update c h = Inr (c', evs)" "length (scroll_history c) \<le> 5"
  shows "length (scroll_history c') \<le> 5"
  using update_history [OF assms(1)] deque_append_length [OF assms(2)] by simp

lemma run_history_length:
  "length (scroll_history c) \<le> 5 \<Longrightarrow>
     (case run c hs of Inl (e, c', evss) \<Rightarrow> length (scroll_history c') \<le> 5
                     | Inr (c', evss) \<Rightarrow> length (scroll_history c') \<le> 5)"
proof (induction hs arbitrary: c)
  case Nil
  then show ?case by simp
next
  case (Cons h hs)
  show ?case
  proof (cases "update c h")
    case (Inl err)
    then show ?thesis
      using Cons.prems update_Inl_history [of c h] by (cases err) auto
  next
    case (Inr ok)
    obtain c1 ev1 where ok: "ok = (c1, ev1)" by (cases ok)
    have "length (scroll_history c1) \<le> 5"
      using update_history_length Inr ok Cons.prems by blast
    from Cons.IH [OF this] show ?thesis
      using Inr ok by (auto split: sum.splits prod.splits)
  qed
qed

lemma main_controller_config [simp]:
  "scroll_sensitivity main_controller = 35"
  "smoothing_factor main_controller = 0.25"
  by (simp_all add: main_controller_def init_def)

lemma scroll_active_cong: "same_config c c' \<Longrightarrow> scroll_active c' h = scroll_active c h"
  by (simp add: same_config_def scroll_active_def)

lemma scroll_active_main [simp]: "scroll_active main_controller (scroll_frame v)"
  by (simp add: scroll_active_def)

lemma double_pinch_frame_simps [simp]:
  "frame_ok double_pinch_frame"
  "left_pinch_dist double_pinch_frame = 0.02"
  "right_pinch_dist double_pinch_frame = 0.03"
  by (simp_all add: double_pinch_frame_def left_pinch_dist_def right_pinch_dist_def)

lemma count_list_one_mem: "count_list xs x = 1 \<Longrightarrow> x \<in> set xs"
  by (metis count_list_0_iff zero_neq_one)

lemma init_simps [simp]:
  "camera_width (init sz cw ch f m lt rt s) = cw"
  "camera_height (init sz cw ch f m lt rt s) = ch"
  "smoothing_factor (init sz cw ch f m lt rt s) = f"
  "margin (init sz cw ch f m lt rt s) = m"
  "left_pinch_threshold (init sz cw ch f m lt rt s) = lt"
  "right_pinch_threshold (init sz cw ch f m lt rt s) = rt"
  "scroll_sensitivity (init sz cw ch f m lt rt s) = s"
  "screen_width (init sz cw ch f m lt rt s) = fst sz"
  "screen_height (init sz cw ch f m lt rt s) = snd sz"
  "prev_cursor (init sz cw ch f m lt rt s)
     = \<lparr> sp_x = real_of_int (fst sz) / 2, sp_y = real_of_int (snd sz) / 2 \<rparr>"
  "scroll_history (init sz cw ch f m lt rt s) = []"
  "left_click_latched (init sz cw ch f m lt rt s) = False"
  "right_click_latched (init sz cw ch f m lt rt s) = False"
  "current_mode (init sz cw ch f m lt rt s) = ''Idle''"
  by (simp_all add: init_def)

lemma clamp_bounds: "lo \<le> hi \<Longrightarrow> lo \<le> clamp v lo hi \<and> clamp v lo hi \<le> hi"
  by (simp add: clamp_def)

lemma rescale_bounds:
  fixes v lo hi w :: real
  assumes "lo < hi" "lo \<le> v" "v \<le> hi" "0 \<le> w"
  shows "0 \<le> (v - lo) / (hi - lo) * w \<and> (v - lo) / (hi - lo) * w \<le> w"
proof -
  have d: "0 < hi - lo" using assms(1) by simp
  have r0: "0 \<le> (v - lo) / (hi - lo)" using d assms(2) by simp
  have r1: "(v - lo) / (hi - lo) \<le> 1" using d assms(3) by simp
  have "0 \<le> (v - lo) / (hi - lo) * w" using r0 assms(4) by (rule mult_nonneg_nonneg)
  moreover have "(v - lo) / (hi - lo) * w \<le> 1 * w"
    using r1 assms(4) by (rule mult_right_mono)
  ultimately show ?thesis by simp
qed

lemma target_x_bounds:
  assumes "2 * margin c < camera_width c" "0 \<le> screen_width c"
  shows "\<exists>tx. target_x c fx = Inr tx \<and> 0 \<le> tx \<and> tx \<le> real_of_int (screen_width c)"
proof -
  let ?lo = "real_of_int (margin c)"
  let ?hi = "real_of_int (camera_width c - margin c)"
  let ?v = "clamp (fx * real_of_int (camera_width c)) ?lo ?hi"
  have lt: "?lo < ?hi" using assms(1) by simp
  then have b: "?lo \<le> ?v \<and> ?v \<le> ?hi" by (intro clamp_bounds) simp
  have w: "0 \<le> real_of_int (screen_width c)" using assms(2) by simp
  have nz: "camera_width c - margin c - margin c \<noteq> 0" using assms(1) by simp
  have eq: "target_x c fx = Inr ((?v - ?lo) / (?hi - ?lo) * real_of_int (screen_width c))"
    using nz by (simp add: target_x_def Let_def)
  from rescale_bounds [OF lt conjunct1 [OF b] conjunct2 [OF b] w] eq
  show ?thesis by blast
qed

lemma target_y_bounds:
  assumes "2 * margin c < camera_height c" "0 \<le> screen_height c"
  shows "\<exists>ty. target_y c fy = Inr ty \<and> 0 \<le> ty \<and> ty \<le> real_of_int (screen_height c)"
proof -
  let ?lo = "real_of_int (margin c)"
  let ?hi = "real_of_int (camera_height c - margin c)"
  let ?v = "clamp (fy * real_of_int (camera_height c)) ?lo ?hi"
  have lt: "?lo < ?hi" using assms(1) by simp
  then have b: "?lo \<le> ?v \<and> ?v \<le> ?hi" by (intro clamp_bounds) simp
  have w: "0 \<le> real_of_int (screen_height c)" using assms(2) by simp
  have nz: "camera_height c - margin c - margin c \<noteq> 0" using assms(1) by simp
  have eq: "target_y c fy = Inr ((?v - ?lo) / (?hi - ?lo) * real_of_int (screen_height c))"
    using nz by (simp add: target_y_def Let_def)
  from rescale_bounds [OF lt conjunct1 [OF b] conjunct2 [OF b] w] eq
  show ?thesis by blast
qed

lemma lerp_convex: "lerp a b t = (1 - t) * a + t * b"
  by (simp add: lerp_def algebra_simps)

lemma lerp_bounds:
  assumes "0 \<le> t" "t \<le> 1" "lo \<le> a" "a \<le> hi" "lo \<le> b" "b \<le> hi"
  shows "lo \<le> lerp a b t \<and> lerp a b t \<le> hi"
proof -
  have u: "0 \<le> 1 - t" using assms(2) by simp
  have "(1 - t) * lo + t * lo \<le> (1 - t) * a + t * b"
    by (intro add_mono mult_left_mono assms u)
  moreover have "(1 - t) * a + t * b \<le> (1 - t) * hi + t * hi"
    by (intro add_mono mult_left_mono assms u)
  moreover have "(1 - t) * lo + t * lo = lo" "(1 - t) * hi + t * hi = hi"
    by (simp_all add: algebra_simps)
  ultimately show ?thesis by (simp add: lerp_convex)
qed

lemma gestures_no_move: "MoveTo px py \<notin> set (snd (gestures tt it mt ie me c))"
  by (simp add: block_defs Let_def split: prod.splits)

lemma valid_config_cong: "same_config c c' \<Longrightarrow> valid_config c' = valid_config c"
  by (simp add: same_config_def valid_config_def)

lemma in_screen_cong: "same_config c c' \<Longrightarrow> in_screen c' px py = in_screen c px py"
  by (simp add: same_config_def in_screen_def)

lemma moves_ok_cong: "same_config c c' \<Longrightarrow> moves_ok c' evs = moves_ok c evs"
  by (simp add: moves_ok_def in_screen_cong cong: event.case_cong)

lemma valid_config_targets:
  assumes "valid_config c"
  shows "\<exists>tx ty. target_x c fx = Inr tx \<and> target_y c fy = Inr ty \<and> in_screen c tx ty"
proof -
  from assms have a: "2 * margin c < camera_width c" "0 \<le> screen_width c"
    "2 * margin c < camera_height c" "0 \<le> screen_height c"
    by (simp_all add: valid_config_def)
  from target_x_bounds [OF a(1,2), of fx] target_y_bounds [OF a(3,4), of fy]
  show ?thesis unfolding in_screen_def by blast
qed

lemma moved_cursor_ok:
  assumes "valid_config c" "cursor_ok c" "in_screen c tx ty"
  shows "cursor_ok (moved c tx ty)"
proof -
  from assms(1) have f: "0 \<le> smoothing_factor c" "smoothing_factor c \<le> 1"
    by (simp_all add: valid_config_def)
  from assms(2,3) have
    x: "0 \<le> sp_x (prev_cursor c)" "sp_x (prev_cursor c) \<le> real_of_int (screen_width c)"
       "0 \<le> tx" "tx \<le> real_of_int (screen_width c)" and
    y: "0 \<le> sp_y (prev_cursor c)" "sp_y (prev_cursor c) \<le> real_of_int (screen_height c)"
       "0 \<le> ty" "ty \<le> real_of_int (screen_height c)"
    by (simp_all add: cursor_ok_def in_screen_def)
  from lerp_bounds [OF f x] lerp_bounds [OF f y]
  show ?thesis by (simp add: cursor_ok_def in_screen_def moved_def)
qed

lemma update_Inl_cases:
  assumes "update c h = Inl (e, c', evs)"
  shows "(c' = c \<and> evs = [])
       \<or> (\<exists>tx ty. target_x c (lm_x (joint h 8)) = Inr tx \<and> target_y c (lm_y (joint h 8)) = Inr ty
              \<and> c' = moved c tx ty
              \<and> evs = [MoveTo (sp_x (prev_cursor (moved c tx ty))) (sp_y (prev_cursor (moved c tx ty)))])"
  using assms
  by (auto simp: update_def getitem_def move_cursor_def moved_def joint_def Let_def
        split: prod.splits sum.splits option.splits if_splits)

lemma moves_ok_simps [simp]:
  "moves_ok c []"
  "moves_ok c (MoveTo px py # evs) = (in_screen c px py \<and> moves_ok c evs)"
  by (simp_all add: moves_ok_def)

lemma moves_ok_no_move: "(\<And>px py. MoveTo px py \<notin> set evs) \<Longrightarrow> moves_ok c evs"
  unfolding moves_ok_def by (auto split: event.splits)

lemma update_Inr_cursor_ok:
  assumes v: "valid_config c" and k: "cursor_ok c" and u: "update c h = Inr (c', evs)"
  shows "same_config c c' \<and> cursor_ok c' \<and> moves_ok c evs"
proof -
  from u obtain tx ty where
    tx: "target_x c (lm_x (joint h 8)) = Inr tx" and ty: "target_y c (lm_y (joint h 8)) = Inr ty"
    and c': "c' = fst (gestures (joint h 4) (joint h 8) (joint h 12) (index_extended h)
                        (middle_extended h) (moved c tx ty))"
    and evs: "evs = MoveTo (sp_x (prev_cursor (moved c tx ty))) (sp_y (prev_cursor (moved c tx ty)))
            # snd (gestures (joint h 4) (joint h 8) (joint h 12) (index_extended h)
                     (middle_extended h) (moved c tx ty))"
    by (rule update_Inr_gestures)
  from valid_config_targets [OF v, of "lm_x (joint h 8)" "lm_y (joint h 8)"] tx ty
  have t: "in_screen c tx ty" by simp
  have m: "cursor_ok (moved c tx ty)" by (rule moved_cursor_ok [OF v k t])
  have sc: "same_config c c'" by (rule update_same_config [OF u])
  have pc: "prev_cursor c' = prev_cursor (moved c tx ty)"
    unfolding c' by (rule gestures_prev_cursor)
  have 1: "cursor_ok c'"
    using m pc sc by (simp add: cursor_ok_def in_screen_def same_config_def moved_def)
  have 2: "in_screen c (sp_x (prev_cursor (moved c tx ty))) (sp_y (prev_cursor (moved c tx ty)))"
    using m by (simp add: cursor_ok_def in_screen_def moved_def)
  have 3: "moves_ok c (snd (gestures (joint h 4) (joint h 8) (joint h 12) (index_extended h)
                     (middle_extended h) (moved c tx ty)))"
    by (rule moves_ok_no_move) (rule gestures_no_move)
  show ?thesis using sc 1 2 3 unfolding evs by simp
qed

lemma update_Inl_cursor_ok:
  assumes v: "valid_config c" and k: "cursor_ok c" and u: "update c h = Inl (e, c', evs)"
  shows "same_config c c' \<and> cursor_ok c' \<and> moves_ok c evs"
proof -
  from update_Inl_cases [OF u] show ?thesis
  proof
    assume "c' = c \<and> evs = []"
    then show ?thesis using k by (simp add: same_config_refl)
  next
    assume "\<exists>tx ty. target_x c (lm_x (joint h 8)) = Inr tx \<and> target_y c (lm_y (joint h 8)) = Inr ty
              \<and> c' = moved c tx ty
              \<and> evs = [MoveTo (sp_x (prev_cursor (moved c tx ty))) (sp_y (prev_cursor (moved c tx ty)))]"
    then obtain tx ty where
      tx: "target_x c (lm_x (joint h 8)) = Inr tx" and ty: "target_y c (lm_y (joint h 8)) = Inr ty"
      and c': "c' = moved c tx ty"
      and evs: "evs = [MoveTo (sp_x (prev_cursor (moved c tx ty))) (sp_y (prev_cursor (moved c tx ty)))]"
      by blast
    from valid_config_targets [OF v, of "lm_x (joint h 8)" "lm_y (joint h 8)"] tx ty
    have t: "in_screen c tx ty" by simp
    have m: "cursor_ok (moved c tx ty)" by (rule moved_cursor_ok [OF v k t])
    have 2: "in_screen c (sp_x (prev_cursor (moved c tx ty))) (sp_y (prev_cursor (moved c tx ty)))"
      using m by (simp add: cursor_ok_def in_screen_def moved_def)
    show ?thesis using m 2 unfolding c' evs by simp
  qed
qed

lemma run_cursor_ok:
  "valid_config c \<Longrightarrow> cursor_ok c \<Longrightarrow>
     same_config c (fst (run_state (run c hs))) \<and> cursor_ok (fst (run_state (run c hs)))
     \<and> (\<forall>evs \<in> set (snd (run_state (run c hs))). moves_ok c evs)"
proof (induction hs arbitrary: c)
  case Nil
  then show ?case by (simp add: run_state_def same_config_refl)
next
  case (Cons h hs)
  show ?case
  proof (cases "update c h")
    case (Inl err)
    obtain e c' evs where err: "err = (e, c', evs)" by (cases err)
    from update_Inl_cursor_ok [OF Cons.prems] Inl err
    have "same_config c c' \<and> cursor_ok c' \<and> moves_ok c evs" by simp
    then show ?thesis using Inl err by (simp add: run_state_def)
  next
    case (Inr ok)
    obtain c1 ev1 where ok: "ok = (c1, ev1)" by (cases ok)
    from update_Inr_cursor_ok [OF Cons.prems] Inr ok
    have s: "same_config c c1" and k: "cursor_ok c1" and m: "moves_ok c ev1" by simp_all
    have v: "valid_config c1" using Cons.prems(1) valid_config_cong [OF s] by simp
    note ih = Cons.IH [OF v k]
    have st: "run_state (run c (h # hs)) = (fst (run_state (run c1 hs)), ev1 # snd (run_state (run c1 hs)))"
      using Inr ok by (simp add: run_state_def split: sum.splits prod.splits)
    have "same_config c (fst (run_state (run c1 hs)))"
      using s ih same_config_trans by blast
    moreover have "\<forall>evs \<in> set (snd (run_state (run c1 hs))). moves_ok c evs"
      using ih moves_ok_cong [OF s] by simp
    ultimately show ?thesis using ih m unfolding st by simp
  qed
qed

lemma outside_frame_simps [simp]: "frame_ok outside_frame"
  by (simp add: outside_frame_def)

lemma valid_config_init:
  assumes "2 * m < min cw ch" and "0 < f" and "f < 1" and "0 \<le> sw" and "0 \<le> sh"
  shows "valid_config (init (sw, sh) cw ch f m lt rt s)"
    and "cursor_ok (init (sw, sh) cw ch f m lt rt s)"
  using assms by (simp_all add: valid_config_def cursor_ok_def in_screen_def)

lemma update_zero_div:
  assumes "fingers_ok h" and "camera_width c = 2 * margin c \<or> camera_height c = 2 * margin c"
  shows "update c h = Inl (ZeroDivisionError, c, [])"
  using assms
  by (auto simp: fingers_ok_def update_def getitem_def move_cursor_def target_x_def target_y_def
        Let_def split: sum.splits option.splits)

lemma update_no_zero_div:
  assumes "camera_width c \<noteq> 2 * margin c" and "camera_height c \<noteq> 2 * margin c"
  shows "update c h \<noteq> Inl (ZeroDivisionError, c', evs)"
  using assms
  by (auto simp: update_def getitem_def move_cursor_def target_x_def target_y_def
        Let_def split: sum.splits option.splits prod.splits)

lemma clamp_collapsed: "hi < lo \<Longrightarrow> clamp v lo hi = lo"
  by (simp add: clamp_def)

lemma target_x_collapsed: "camera_width c < 2 * margin c \<Longrightarrow> target_x c fx = Inr 0"
proof -
  assume a: "camera_width c < 2 * margin c"
  then have "real_of_int (camera_width c - margin c) < real_of_int (margin c)" by simp
  then have "clamp (fx * real_of_int (camera_width c)) (real_of_int (margin c))
               (real_of_int (camera_width c - margin c)) = real_of_int (margin c)"
    by (rule clamp_collapsed)
  then show ?thesis using a by (simp add: target_x_def Let_def)
qed

lemma target_y_collapsed: "camera_height c < 2 * margin c \<Longrightarrow> target_y c fy = Inr 0"
proof -
  assume a: "camera_height c < 2 * margin c"
  then have "real_of_int (camera_height c - margin c) < real_of_int (margin c)" by simp
  then have "clamp (fy * real_of_int (camera_height c)) (real_of_int (margin c))
               (real_of_int (camera_height c - margin c)) = real_of_int (margin c)"
    by (rule clamp_collapsed)
  then show ?thesis using a by (simp add: target_y_def Let_def)
qed

lemma distance_2d_nonneg: "0 \<le> distance_2d x1 y1 x2 y2"
  by (simp add: distance_2d_def)

lemma no_left_click_nonpos:
  assumes "update c h = Inr (c', evs)" and "left_pinch_threshold c \<le> 0"
  shows "Click LeftButton \<notin> set evs"
proof -
  have "0 \<le> left_pinch_dist h" unfolding left_pinch_dist_def by (rule distance_2d_nonneg)
  then have "\<not> left_pinch_dist h < left_pinch_threshold c" using assms(2) by simp
  then have "count_list evs (Click LeftButton) = 0"
    using update_left_count [OF assms(1)] by simp
  then show ?thesis by (rule iffD1 [OF count_list_0_iff])
qed

lemma no_right_click_nonpos:
  assumes "update c h = Inr (c', evs)" and "right_pinch_threshold c \<le> 0"
  shows "Click RightButton \<notin> set evs"
proof -
  have "0 \<le> right_pinch_dist h" unfolding right_pinch_dist_def by (rule distance_2d_nonneg)
  then have "\<not> right_pinch_dist h < right_pinch_threshold c" using assms(2) by simp
  then have "count_list evs (Click RightButton) = 0"
    using update_right_count [OF assms(1)] by simp
  then show ?thesis by (rule iffD1 [OF count_list_0_iff])
qed

lemma fingers_ok_pinch_frame [simp]: "fingers_ok (pinch_frame d)"
  by (simp add: fingers_ok_def pinch_frame_def mk_frame_def)

lemma short_frame_simps [simp]:
  "length (landmarks short_frame) = 13"
  "frame_ok short_frame"
  by (simp_all add: short_frame_def pinch_frame_def mk_frame_def frame_ok_def)

lemma update_short:
  "length (landmarks h) \<le> 12 \<Longrightarrow> update c h = Inl (IndexError, c, [])"
  by (simp add: update_def getitem_def Let_def)

lemma update_null_finger:
  assumes "12 < length (landmarks h)"
      and "landmarks h ! 8 = None \<or> landmarks h ! 6 = None
           \<or> landmarks h ! 12 = None \<or> landmarks h ! 10 = None"
  shows "update c h = Inl (AttributeError, c, [])"
  using assms
  by (auto simp: update_def getitem_def Let_def split: option.splits)

lemma update_null_thumb:
  assumes "fingers_ok h" and "landmarks h ! 4 = None"
      and "target_x c (lm_x (joint h 8)) = Inr tx"
      and "target_y c (lm_y (joint h 8)) = Inr ty"
  shows "update c h = Inl (AttributeError, moved c tx ty,
            [MoveTo (sp_x (prev_cursor (moved c tx ty))) (sp_y (prev_cursor (moved c tx ty)))])"
  using assms
  by (auto simp: fingers_ok_def update_def getitem_def move_cursor_def moved_def joint_def
        Let_def split: option.splits)

lemma update_not_frame_ok: "\<not> frame_ok h \<Longrightarrow> isl (update c h)"
  using update_Inr_frame_ok [of c h] by (cases "update c h") auto

lemma update_five_joints:
  assumes "frame_ok h" and "frame_ok h'"
      and "joint h 4 = joint h' 4" and "joint h 8 = joint h' 8" and "joint h 6 = joint h' 6"
      and "joint h 12 = joint h' 12" and "joint h 10 = joint h' 10"
  shows "update c h = update c h'"
proof (cases "\<exists>tx ty. target_x c (lm_x (joint h 8)) = Inr tx \<and> target_y c (lm_y (joint h 8)) = Inr ty")
  case True
  then obtain tx ty where t: "target_x c (lm_x (joint h 8)) = Inr tx"
    "target_y c (lm_y (joint h 8)) = Inr ty" by blast
  then have t': "target_x c (lm_x (joint h' 8)) = Inr tx" "target_y c (lm_y (joint h' 8)) = Inr ty"
    using assms(4) by simp_all
  have e: "index_extended h = index_extended h'" "middle_extended h = middle_extended h'"
    using assms(4-7) by (simp_all add: index_extended_def middle_extended_def)
  show ?thesis
    unfolding update_frame_ok [OF assms(1) t] update_frame_ok [OF assms(2) t']
    using assms(3-7) e by simp
next
  case False
  then have z: "\<not> (camera_width c \<noteq> 2 * margin c \<and> camera_height c \<noteq> 2 * margin c)"
    using target_x_Inr [of c] target_y_Inr [of c] by blast
  have f: "fingers_ok h" "fingers_ok h'"
    using assms(1,2) by (simp_all add: frame_ok_def fingers_ok_def)
  from z have z': "camera_width c = 2 * margin c \<or> camera_height c = 2 * margin c" by blast
  show ?thesis
    unfolding update_zero_div [OF f(1) z'] update_zero_div [OF f(2) z'] by (rule refl)
qed

section \<open>The claims\<close>

text \<open>
  C1. A left click fires on a frame exactly when the thumb-index distance is below the left
  threshold and the left latch is clear, once; after the call the latch is set exactly when
  the distance is below the threshold, so a held pinch fires nothing more and the latch
  clears when the distance is back at or above the threshold. For the distances
  0.05, 0.02, 0.02, 0.02, 0.05, 0.02 and the threshold 0.035, starting with the latch clear,
  the left clicks per frame are 0, 1, 0, 0, 0, 1.
\<close>

theorem left_click_edge_trigger:
  "(\<forall>c h c' evs. update c h = Inr (c', evs) \<longrightarrow>
       count_list evs (Click LeftButton)
         = (if left_pinch_dist h < left_pinch_threshold c \<and> \<not> left_click_latched c then 1 else 0)
       \<and> left_click_latched c' = (left_pinch_dist h < left_pinch_threshold c))
   \<and> (\<forall>c hs c' evss.
         left_pinch_threshold c = 0.035 \<and> \<not> left_click_latched c
         \<and> map left_pinch_dist hs = [0.05, 0.02, 0.02, 0.02, 0.05, 0.02]
         \<and> run c hs = Inr (c', evss)
       \<longrightarrow> map (\<lambda>evs. count_list evs (Click LeftButton)) evss = [0, 1, 0, 0, 0, 1])"
proof (intro conjI allI impI)
  fix c h c' evs assume u: "update c h = Inr (c', evs)"
  show "count_list evs (Click LeftButton)
         = (if left_pinch_dist h < left_pinch_threshold c \<and> \<not> left_click_latched c then 1 else 0)"
    by (rule update_left_count [OF u])
  show "left_click_latched c' = (left_pinch_dist h < left_pinch_threshold c)"
    by (rule update_left_latch [OF u])
next
  fix c hs c' evss
  assume a: "left_pinch_threshold c = 0.035 \<and> \<not> left_click_latched c
         \<and> map left_pinch_dist hs = [0.05, 0.02, 0.02, 0.02, 0.05, 0.02]
         \<and> run c hs = Inr (c', evss)"
  then have "map (\<lambda>evs. count_list evs (Click LeftButton)) evss
       = edge_counts False 0.035 [0.05, 0.02, 0.02, 0.02, 0.05, 0.02]"
    using run_left_counts [of c hs c' evss] by simp
  then show "map (\<lambda>evs. count_list evs (Click LeftButton)) evss = [0, 1, 0, 0, 0, 1]"
    by simp
qed

theorem left_click_edge_trigger_witness:
  "\<exists>c' evs c'' evss.
     update main_controller (pinch_frame 0.02) = Inr (c', evs)
     \<and> count_list evs (Click LeftButton) = 1 \<and> left_click_latched c'
     \<and> left_pinch_threshold main_controller = 0.035 \<and> \<not> left_click_latched main_controller
     \<and> map left_pinch_dist (map pinch_frame [0.05, 0.02, 0.02, 0.02, 0.05, 0.02])
           = [0.05, 0.02, 0.02, 0.02, 0.05, 0.02]
     \<and> run main_controller (map pinch_frame [0.05, 0.02, 0.02, 0.02, 0.05, 0.02]) = Inr (c'', evss)
     \<and> map (\<lambda>evs. count_list evs (Click LeftButton)) evss = [0, 1, 0, 0, 0, 1]"
proof -
  obtain c' evs where u: "update main_controller (pinch_frame 0.02) = Inr (c', evs)"
    using update_ok_Inr [of "pinch_frame 0.02" main_controller] by auto
  obtain c'' evss where
    r: "run main_controller (map pinch_frame [0.05, 0.02, 0.02, 0.02, 0.05, 0.02]) = Inr (c'', evss)"
    using run_ok_Inr [of "map pinch_frame [0.05, 0.02, 0.02, 0.02, 0.05, 0.02]" main_controller]
    by auto
  have d: "map left_pinch_dist (map pinch_frame [0.05, 0.02, 0.02, 0.02, 0.05, 0.02])
           = [0.05, 0.02, 0.02, 0.02, 0.05, 0.02]" by simp
  from left_click_edge_trigger [THEN conjunct1, rule_format, OF u]
  have 1: "count_list evs (Click LeftButton) = 1 \<and> left_click_latched c'" by simp
  have hyp: "left_pinch_threshold main_controller = 0.035 \<and> \<not> left_click_latched main_controller
     \<and> map left_pinch_dist (map pinch_frame [0.05, 0.02, 0.02, 0.02, 0.05, 0.02])
           = [0.05, 0.02, 0.02, 0.02, 0.05, 0.02]
     \<and> run main_controller (map pinch_frame [0.05, 0.02, 0.02, 0.02, 0.05, 0.02]) = Inr (c'', evss)"
    using main_controller_simps(2,4) d r by blast
  have 2: "map (\<lambda>evs. count_list evs (Click LeftButton)) evss = [0, 1, 0, 0, 0, 1]"
    by (rule left_click_edge_trigger [THEN conjunct2, rule_format, OF hyp])
  show ?thesis
    by (rule exI [of _ c'], rule exI [of _ evs], rule exI [of _ c''], rule exI [of _ evss])
       (use u hyp 1 2 in blast)
qed

text \<open>
  C2 as stated fails: a margin of 640 on a camera 1280 pixels wide is accepted by the
  constructor, and the first call raises ZeroDivisionError.
\<close>

theorem config_validation_counterexample:
  "(1280::int) \<le> 2 * 640
   \<and> update (init (1920, 1080) 1280 720 0.25 640 0.035 0.04 35) (pinch_frame 0.05)
       = Inl (ZeroDivisionError, init (1920, 1080) 1280 720 0.25 640 0.035 0.04 35, [])"
  by (simp add: update_zero_div)

text \<open>
  C2, as amended. The constructor checks nothing: it stores any margin and any thresholds
  as they are given. With \<open>2 * margin\<close> equal to the camera width or height, every call on a
  frame whose index and middle joints are there raises ZeroDivisionError in the cursor
  mapping, with the controller unchanged and no event sent; with \<open>2 * margin\<close> different
  from both, no call raises ZeroDivisionError. With \<open>2 * margin\<close> above the camera width
  (height) the mapped target x (y) is 0 for every landmark. With a threshold that is not
  positive the click of that side never fires.
\<close>

theorem config_unchecked:
  "margin (init sz cw ch f m lt rt s) = m
   \<and> left_pinch_threshold (init sz cw ch f m lt rt s) = lt
   \<and> right_pinch_threshold (init sz cw ch f m lt rt s) = rt
   \<and> (\<forall>c h. fingers_ok h \<and> (camera_width c = 2 * margin c \<or> camera_height c = 2 * margin c)
          \<longrightarrow> update c h = Inl (ZeroDivisionError, c, []))
   \<and> (\<forall>c h c' evs. camera_width c \<noteq> 2 * margin c \<and> camera_height c \<noteq> 2 * margin c
          \<longrightarrow> update c h \<noteq> Inl (ZeroDivisionError, c', evs))
   \<and> (\<forall>c fx. camera_width c < 2 * margin c \<longrightarrow> target_x c fx = Inr 0)
   \<and> (\<forall>c fy. camera_height c < 2 * margin c \<longrightarrow> target_y c fy = Inr 0)
   \<and> (\<forall>c h c' evs. update c h = Inr (c', evs) \<and> left_pinch_threshold c \<le> 0
          \<longrightarrow> Click LeftButton \<notin> set evs)
   \<and> (\<forall>c h c' evs. update c h = Inr (c', evs) \<and> right_pinch_threshold c \<le> 0
          \<longrightarrow> Click RightButton \<notin> set evs)"
  apply (intro conjI allI impI)
  subgoal by simp
  subgoal by simp
  subgoal by simp
  subgoal for c h by (rule update_zero_div) simp_all
  subgoal for c h c' evs by (rule update_no_zero_div) simp_all
  subgoal for c fx by (rule target_x_collapsed)
  subgoal for c fy by (rule target_y_collapsed)
  subgoal for c h c' evs by (rule no_left_click_nonpos [of c h c' evs]) simp_all
  subgoal for c h c' evs by (rule no_right_click_nonpos [of c h c' evs]) simp_all
  done

theorem config_unchecked_witness:
  "fingers_ok (pinch_frame 0.05)
   \<and> camera_height (init (1920, 1080) 1280 720 0.25 360 0 0.04 35)
       = 2 * margin (init (1920, 1080) 1280 720 0.25 360 0 0.04 35)
   \<and> left_pinch_threshold (init (1920, 1080) 1280 720 0.25 360 0 0.04 35) = 0
   \<and> update (init (1920, 1080) 1280 720 0.25 360 0 0.04 35) (pinch_frame 0.05)
       = Inl (ZeroDivisionError, init (1920, 1080) 1280 720 0.25 360 0 0.04 35, [])"
proof -
  let ?c = "init (1920, 1080) 1280 720 0.25 360 0 0.04 35"
  have h: "fingers_ok (pinch_frame 0.05)
             \<and> (camera_width ?c = 2 * margin ?c \<or> camera_height ?c = 2 * margin ?c)" by simp
  have "update ?c (pinch_frame 0.05) = Inl (ZeroDivisionError, ?c, [])"
    by (rule config_unchecked [THEN conjunct2, THEN conjunct2, THEN conjunct2, THEN conjunct1,
               rule_format, OF h])
  moreover have "left_pinch_threshold ?c = 0"
    by (rule config_unchecked [THEN conjunct2, THEN conjunct1])
  ultimately show ?thesis by simp
qed

text \<open>
  C3 as stated fails: a frame of 13 joints is processed without any error.
\<close>

theorem malformed_frame_counterexample:
  "length (landmarks short_frame) < 21 \<and> \<not> isl (update main_controller short_frame)"
proof -
  obtain c' evs where "update main_controller short_frame = Inr (c', evs)"
    using update_ok_Inr [of short_frame main_controller] by auto
  then show ?thesis by simp
qed

text \<open>
  C3, as amended. A frame of fewer than 13 joints makes the call raise IndexError, and a
  frame of at least 13 joints with a null index tip, index PIP, middle tip or middle PIP
  makes it raise AttributeError, both with the controller unchanged and no event sent. A
  null thumb tip raises AttributeError after the cursor has moved. So a frame without one
  of the five joints always raises, and a frame with the five joints raises only on a zero
  divisor: frames of 13 to 20 joints are accepted, and the outcome depends on the joints
  4, 6, 8, 10 and 12 only.
\<close>

theorem malformed_frame_errors:
  "(length (landmarks h) \<le> 12 \<longrightarrow> update c h = Inl (IndexError, c, []))
   \<and> (12 < length (landmarks h)
        \<and> (landmarks h ! 8 = None \<or> landmarks h ! 6 = None
             \<or> landmarks h ! 12 = None \<or> landmarks h ! 10 = None)
       \<longrightarrow> update c h = Inl (AttributeError, c, []))
   \<and> (\<forall>tx ty. fingers_ok h \<and> landmarks h ! 4 = None
          \<and> target_x c (lm_x (joint h 8)) = Inr tx \<and> target_y c (lm_y (joint h 8)) = Inr ty
       \<longrightarrow> update c h = Inl (AttributeError, moved c tx ty,
              [MoveTo (sp_x (prev_cursor (moved c tx ty))) (sp_y (prev_cursor (moved c tx ty)))]))
   \<and> (\<not> frame_ok h \<longrightarrow> isl (update c h))
   \<and> (frame_ok h \<and> no_zero_div c \<longrightarrow> \<not> isl (update c h))
   \<and> (\<forall>h'. frame_ok h \<and> frame_ok h'
          \<and> joint h 4 = joint h' 4 \<and> joint h 8 = joint h' 8 \<and> joint h 6 = joint h' 6
          \<and> joint h 12 = joint h' 12 \<and> joint h 10 = joint h' 10
       \<longrightarrow> update c h = update c h')"
  apply (intro conjI allI impI)
  subgoal by (rule update_short)
  subgoal by (rule update_null_finger) simp_all
  subgoal for tx ty by (rule update_null_thumb) simp_all
  subgoal by (rule update_not_frame_ok)
  subgoal using update_ok_Inr [of h c] by auto
  subgoal for h' by (rule update_five_joints) simp_all
  done

theorem malformed_frame_errors_witness:
  "length (landmarks \<lparr> landmarks = [] \<rparr>) \<le> 12
   \<and> update main_controller \<lparr> landmarks = [] \<rparr> = Inl (IndexError, main_controller, [])
   \<and> frame_ok short_frame \<and> no_zero_div main_controller
   \<and> \<not> isl (update main_controller short_frame)
   \<and> \<not> frame_ok no_thumb_frame \<and> isl (update main_controller no_thumb_frame)"
proof -
  have e: "length (landmarks \<lparr> landmarks = [] \<rparr>) \<le> 12" by simp
  have 1: "update main_controller \<lparr> landmarks = [] \<rparr> = Inl (IndexError, main_controller, [])"
    by (rule malformed_frame_errors [THEN conjunct1, rule_format, OF e])
  have s: "frame_ok short_frame \<and> no_zero_div main_controller" by simp
  have 2: "\<not> isl (update main_controller short_frame)"
    by (rule malformed_frame_errors [THEN conjunct2, THEN conjunct2, THEN conjunct2,
               THEN conjunct2, THEN conjunct1, rule_format, OF s])
  have n: "\<not> frame_ok no_thumb_frame"
    by (simp add: no_thumb_frame_def pinch_frame_def mk_frame_def frame_ok_def)
  have 3: "isl (update main_controller no_thumb_frame)"
    by (rule malformed_frame_errors [THEN conjunct2, THEN conjunct2, THEN conjunct2,
               THEN conjunct1, rule_format, OF n])
  show ?thesis using e 1 s 2 n 3 by (intro conjI) simp_all
qed

text \<open>
  C4. For a configuration with \<open>2 * margin < min(camera_width, camera_height)\<close>, a smoothing
  factor strictly between 0 and 1 and the screen size of the operating system (not
  negative): every landmark position, inside \<open>[0,1]\<close> or not, maps to a target within
  \<open>[0, screen_width] \<times> [0, screen_height]\<close>, and after any sequence of calls on a
  constructed controller, returned or raised, the stored cursor lies within these bounds,
  the screen size is unchanged, and so does every pointer move that was sent.
\<close>

theorem cursor_within_screen:
  assumes "2 * m < min cw ch" and "0 < f" and "f < 1" and "0 \<le> sw" and "0 \<le> sh"
  shows "(\<forall>fx fy. \<exists>tx ty. target_x (init (sw, sh) cw ch f m lt rt s) fx = Inr tx
                        \<and> target_y (init (sw, sh) cw ch f m lt rt s) fy = Inr ty
                        \<and> 0 \<le> tx \<and> tx \<le> real_of_int sw \<and> 0 \<le> ty \<and> ty \<le> real_of_int sh)
       \<and> (\<forall>hs. cursor_ok (fst (run_state (run (init (sw, sh) cw ch f m lt rt s) hs)))
               \<and> screen_width (fst (run_state (run (init (sw, sh) cw ch f m lt rt s) hs))) = sw
               \<and> screen_height (fst (run_state (run (init (sw, sh) cw ch f m lt rt s) hs))) = sh
               \<and> (\<forall>evs \<in> set (snd (run_state (run (init (sw, sh) cw ch f m lt rt s) hs))).
                     moves_ok (init (sw, sh) cw ch f m lt rt s) evs))"
proof (intro conjI allI)
  let ?c = "init (sw, sh) cw ch f m lt rt s"
  have v: "valid_config ?c" and k: "cursor_ok ?c"
    by (rule valid_config_init [OF assms])+
  fix fx fy
  from valid_config_targets [OF v, of fx fy]
  show "\<exists>tx ty. target_x ?c fx = Inr tx \<and> target_y ?c fy = Inr ty
                        \<and> 0 \<le> tx \<and> tx \<le> real_of_int sw \<and> 0 \<le> ty \<and> ty \<le> real_of_int sh"
    by (simp add: in_screen_def)
next
  let ?c = "init (sw, sh) cw ch f m lt rt s"
  have v: "valid_config ?c" and k: "cursor_ok ?c"
    by (rule valid_config_init [OF assms])+
  fix hs
  note r = run_cursor_ok [OF v k, of hs]
  show "cursor_ok (fst (run_state (run ?c hs)))" using r by simp
  show "screen_width (fst (run_state (run ?c hs))) = sw"
    using r by (simp add: same_config_def)
  show "screen_height (fst (run_state (run ?c hs))) = sh"
    using r by (simp add: same_config_def)
  show "\<forall>evs \<in> set (snd (run_state (run ?c hs))). moves_ok ?c evs" using r by simp
qed

theorem cursor_within_screen_witness:
  "(2::int) * 120 < min 1280 720 \<and> (0::real) < 0.25 \<and> (0.25::real) < 1
   \<and> (0::int) \<le> 1920 \<and> (0::int) \<le> 1080
   \<and> target_x (init (1920, 1080) 1280 720 0.25 120 0.035 0.04 35) 1.5 = Inr 1920
   \<and> target_y (init (1920, 1080) 1280 720 0.25 120 0.035 0.04 35) (- 0.2) = Inr 0
   \<and> cursor_ok (fst (run_state (run (init (1920, 1080) 1280 720 0.25 120 0.035 0.04 35)
                                    [outside_frame, outside_frame])))"
proof -
  have h: "(2::int) * 120 < min 1280 720" "(0::real) < 0.25" "(0.25::real) < 1"
    "(0::int) \<le> 1920" "(0::int) \<le> 1080" by simp_all
  note t = cursor_within_screen [OF h, of "0.035" "0.04" 35]
  have 1: "cursor_ok (fst (run_state (run (init (1920, 1080) 1280 720 0.25 120 0.035 0.04 35)
                                    [outside_frame, outside_frame])))"
    using t [THEN conjunct2, rule_format, of "[outside_frame, outside_frame]"] by (rule conjunct1)
  have 2: "target_x (init (1920, 1080) 1280 720 0.25 120 0.035 0.04 35) 1.5 = Inr 1920"
    by (simp add: target_x_def clamp_def Let_def)
  have 3: "target_y (init (1920, 1080) 1280 720 0.25 120 0.035 0.04 35) (- 0.2) = Inr 0"
    by (simp add: target_y_def clamp_def Let_def)
  show ?thesis using h 1 2 3 by (intro conjI)
qed

text \<open>
  C5. On a call that returns, a scroll event is sent only if the index and the middle finger
  are extended and the left pinch distance is above the left threshold; with the distance
  below the threshold no scroll event is sent, whatever the fingers do; when the scroll
  condition is false the scroll history is empty after the call, and when it is true the
  history is the old one with the frame's average appended.
\<close>

theorem scroll_gate_exclusive:
  assumes "update c h = Inr (c', evs)"
  shows "((\<exists>a. Scroll a \<in> set evs) \<longrightarrow>
            index_extended h \<and> middle_extended h \<and> left_pinch_dist h > left_pinch_threshold c)
       \<and> (left_pinch_dist h < left_pinch_threshold c \<longrightarrow> (\<forall>a. Scroll a \<notin> set evs))
       \<and> (\<not> (index_extended h \<and> middle_extended h \<and> left_pinch_dist h > left_pinch_threshold c)
            \<longrightarrow> scroll_history c' = [])
       \<and> (index_extended h \<and> middle_extended h \<and> left_pinch_dist h > left_pinch_threshold c
            \<longrightarrow> scroll_history c' = deque_append 5 (scroll_history c) (avg_y h))"
proof -
  have f: "filter is_scroll evs \<noteq> [] \<Longrightarrow> scroll_active c h"
    using update_scroll_events [OF assms] by (simp split: if_splits)
  have 1: "(\<exists>a. Scroll a \<in> set evs) \<longrightarrow> scroll_active c h"
    using f is_scroll_mem by blast
  have 2: "left_pinch_dist h < left_pinch_threshold c \<longrightarrow> (\<forall>a. Scroll a \<notin> set evs)"
    using 1 by (auto simp: scroll_active_def)
  show ?thesis
    using 1 2 update_history [OF assms] by (simp add: scroll_active_def)
qed

theorem scroll_gate_exclusive_witness:
  "\<exists>c' evs c'' evs'.
      update main_controller (scroll_frame 0.4) = Inr (c', evs) \<and> scroll_history c' = [0.4]
    \<and> update main_controller (pinch_frame 0.02) = Inr (c'', evs')
    \<and> (\<forall>a. Scroll a \<notin> set evs') \<and> scroll_history c'' = []"
proof -
  obtain c' evs where u: "update main_controller (scroll_frame 0.4) = Inr (c', evs)"
    using update_ok_Inr [of "scroll_frame 0.4" main_controller] by auto
  obtain c'' evs' where v: "update main_controller (pinch_frame 0.02) = Inr (c'', evs')"
    using update_ok_Inr [of "pinch_frame 0.02" main_controller] by auto
  have 1: "scroll_history c' = [0.4]"
    using scroll_gate_exclusive [OF u] by (simp add: deque_append_def)
  have 2: "(\<forall>a. Scroll a \<notin> set evs') \<and> scroll_history c'' = []"
    using scroll_gate_exclusive [OF v] by simp
  show ?thesis
    by (rule exI [of _ c'], rule exI [of _ evs], rule exI [of _ c''], rule exI [of _ evs'])
       (use u v 1 2 in blast)
qed

text \<open>
  C6. On a scroll-active frame the average fingertip y of the frame is appended to the
  scroll history (it is its last sample after the call), and a scroll amount of absolute
  value at most 1 sends no scroll event. Whatever the frames, the scroll history of a
  constructed controller never holds more than 5 samples, whether the run returns or
  raises.
\<close>

theorem scroll_noise_suppressed:
  "(\<forall>c h c' evs. update c h = Inr (c', evs) \<and> scroll_active c h \<longrightarrow>
       scroll_history c' = deque_append 5 (scroll_history c) (avg_y h)
     \<and> last (scroll_history c') = avg_y h
     \<and> (\<bar>scroll_amount c h\<bar> \<le> 1 \<longrightarrow> (\<forall>a. Scroll a \<notin> set evs)))
   \<and> (\<forall>sz cw ch f m lt rt s hs.
         case run (init sz cw ch f m lt rt s) hs of
           Inl (e, c', evss) \<Rightarrow> length (scroll_history c') \<le> 5
         | Inr (c', evss) \<Rightarrow> length (scroll_history c') \<le> 5)"
proof (intro conjI allI impI)
  fix c h c' evs assume a: "update c h = Inr (c', evs) \<and> scroll_active c h"
  then have u: "update c h = Inr (c', evs)" and s: "scroll_active c h" by simp_all
  show h: "scroll_history c' = deque_append 5 (scroll_history c) (avg_y h)"
    using update_history [OF u] s by simp
  show "last (scroll_history c') = avg_y h"
    unfolding h by (rule deque_append_last) simp
  assume small: "\<bar>scroll_amount c h\<bar> \<le> 1"
  fix a
  have "filter is_scroll evs = []"
    using update_scroll_events [OF u] small by simp
  then show "Scroll a \<notin> set evs"
    using is_scroll_mem [of evs] by blast
next
  fix sz cw ch f m lt rt s hs
  have "length (scroll_history (init sz cw ch f m lt rt s)) \<le> 5"
    by (simp add: init_def)
  then show "case run (init sz cw ch f m lt rt s) hs of
           Inl (e, c', evss) \<Rightarrow> length (scroll_history c') \<le> 5
         | Inr (c', evss) \<Rightarrow> length (scroll_history c') \<le> 5"
    by (rule run_history_length)
qed

theorem scroll_noise_suppressed_witness:
  "\<exists>c1 ev1 c2 ev2.
      update main_controller (scroll_frame 0.4) = Inr (c1, ev1)
    \<and> update c1 (scroll_frame 0.4) = Inr (c2, ev2)
    \<and> scroll_active c1 (scroll_frame 0.4)
    \<and> \<bar>scroll_amount c1 (scroll_frame 0.4)\<bar> \<le> 1
    \<and> scroll_history c2 = [0.4, 0.4]
    \<and> (\<forall>a. Scroll a \<notin> set ev2)
    \<and> run (init (1920, 1080) 1280 720 0.25 120 0.035 0.04 35) [scroll_frame 0.4, scroll_frame 0.4]
          = Inr (c2, [ev1, ev2])
    \<and> length (scroll_history c2) \<le> 5"
proof -
  obtain c1 ev1 where u1: "update main_controller (scroll_frame 0.4) = Inr (c1, ev1)"
    using update_ok_Inr [of "scroll_frame 0.4" main_controller] by auto
  have cfg: "same_config main_controller c1" by (rule update_same_config [OF u1])
  have nz: "no_zero_div c1" using cfg no_zero_div_cong by auto
  obtain c2 ev2 where u2: "update c1 (scroll_frame 0.4) = Inr (c2, ev2)"
    using update_ok_Inr [of "scroll_frame 0.4" c1] nz by auto
  have act: "scroll_active c1 (scroll_frame 0.4)"
    using scroll_active_cong [OF cfg] by simp
  have h1: "scroll_history c1 = [0.4]"
    using update_history [OF u1] by (simp add: deque_append_def)
  have amt: "\<bar>scroll_amount c1 (scroll_frame 0.4)\<bar> \<le> 1"
    by (simp add: scroll_amount_def h1 deque_append_def py_int_def)
  have r: "run (init (1920, 1080) 1280 720 0.25 120 0.035 0.04 35) [scroll_frame 0.4, scroll_frame 0.4]
          = Inr (c2, [ev1, ev2])"
    using u1 u2 by (simp add: main_controller_def)
  from scroll_noise_suppressed [THEN conjunct1, rule_format, OF conjI [OF u2 act]] amt
  have 1: "scroll_history c2 = [0.4, 0.4] \<and> (\<forall>a. Scroll a \<notin> set ev2)"
    by (simp add: h1 deque_append_def)
  from scroll_noise_suppressed [THEN conjunct2, rule_format,
         of "(1920, 1080)" 1280 720 "0.25" 120 "0.035" "0.04" 35 "[scroll_frame 0.4, scroll_frame 0.4]"]
  have 2: "length (scroll_history c2) \<le> 5"
    unfolding r by simp
  show ?thesis
    by (rule exI [of _ c1], rule exI [of _ ev1], rule exI [of _ c2], rule exI [of _ ev2])
       (use u1 u2 act amt r 1 2 in blast)
qed

text \<open>
  C9. A constructed controller has its cursor at the centre of the screen, an empty scroll
  history, both latches clear and the mode label Idle. So its first call, on a frame with
  the five joints and with no zero divisor in the mapping, returns and sends a left click
  when the thumb-index distance is below the left threshold, and a right click when the
  thumb-middle distance is below the right threshold.
\<close>

theorem init_state_first_click:
  "prev_cursor (init (sw, sh) cw ch f m lt rt s)
      = \<lparr> sp_x = real_of_int sw / 2, sp_y = real_of_int sh / 2 \<rparr>
   \<and> scroll_history (init (sw, sh) cw ch f m lt rt s) = []
   \<and> \<not> left_click_latched (init (sw, sh) cw ch f m lt rt s)
   \<and> \<not> right_click_latched (init (sw, sh) cw ch f m lt rt s)
   \<and> current_mode (init (sw, sh) cw ch f m lt rt s) = ''Idle''
   \<and> (\<forall>h. frame_ok h \<and> cw \<noteq> 2 * m \<and> ch \<noteq> 2 * m \<and> left_pinch_dist h < lt \<longrightarrow>
          (\<exists>c' evs. update (init (sw, sh) cw ch f m lt rt s) h = Inr (c', evs)
                     \<and> Click LeftButton \<in> set evs))
   \<and> (\<forall>h. frame_ok h \<and> cw \<noteq> 2 * m \<and> ch \<noteq> 2 * m \<and> right_pinch_dist h < rt \<longrightarrow>
          (\<exists>c' evs. update (init (sw, sh) cw ch f m lt rt s) h = Inr (c', evs)
                     \<and> Click RightButton \<in> set evs))"
proof -
  let ?c = "init (sw, sh) cw ch f m lt rt s"
  have ret: "\<exists>c' evs. update ?c h = Inr (c', evs)" if "frame_ok h" "cw \<noteq> 2 * m" "ch \<noteq> 2 * m" for h
  proof (rule update_ok_Inr)
    show "frame_ok h" by (rule that(1))
    show "no_zero_div ?c" using that(2,3) by (simp add: no_zero_div_def)
  qed
  have l: "\<exists>c' evs. update ?c h = Inr (c', evs) \<and> Click LeftButton \<in> set evs"
    if "frame_ok h \<and> cw \<noteq> 2 * m \<and> ch \<noteq> 2 * m \<and> left_pinch_dist h < lt" for h
  proof -
    from ret that obtain c' evs where u: "update ?c h = Inr (c', evs)" by blast
    have "count_list evs (Click LeftButton) = 1"
      using update_left_count [OF u] that by simp
    then have "Click LeftButton \<in> set evs" by (rule count_list_one_mem)
    with u show ?thesis by (intro exI conjI)
  qed
  have r: "\<exists>c' evs. update ?c h = Inr (c', evs) \<and> Click RightButton \<in> set evs"
    if "frame_ok h \<and> cw \<noteq> 2 * m \<and> ch \<noteq> 2 * m \<and> right_pinch_dist h < rt" for h
  proof -
    from ret that obtain c' evs where u: "update ?c h = Inr (c', evs)" by blast
    have "count_list evs (Click RightButton) = 1"
      using update_right_count [OF u] that by simp
    then have "Click RightButton \<in> set evs" by (rule count_list_one_mem)
    with u show ?thesis by (intro exI conjI)
  qed
  show ?thesis
    apply (intro conjI allI impI)
    subgoal by simp
    subgoal by simp
    subgoal by simp
    subgoal by simp
    subgoal by simp
    subgoal for h by (rule l)
    subgoal for h by (rule r)
    done
qed

theorem init_state_first_click_witness:
  "frame_ok (pinch_frame 0.02) \<and> (1280::int) \<noteq> 2 * 120 \<and> (720::int) \<noteq> 2 * 120
   \<and> left_pinch_dist (pinch_frame 0.02) < 0.035
   \<and> (\<exists>c' evs. update (init (1920, 1080) 1280 720 0.25 120 0.035 0.04 35) (pinch_frame 0.02)
                   = Inr (c', evs) \<and> Click LeftButton \<in> set evs)"
proof -
  have h: "frame_ok (pinch_frame 0.02) \<and> (1280::int) \<noteq> 2 * 120 \<and> (720::int) \<noteq> 2 * 120
   \<and> left_pinch_dist (pinch_frame 0.02) < 0.035" by simp
  from init_state_first_click [of 1920 1080 1280 720 "0.25" 120 "0.035" "0.04" 35,
         THEN conjunct2, THEN conjunct2, THEN conjunct2, THEN conjunct2, THEN conjunct2,
         THEN conjunct1, rule_format, OF h] h
  show ?thesis by blast
qed

text \<open>
  C10. There is a frame, with both latches clear, on which one call sends a left click and a
  right click. In every call that returns, the left click and the left latch depend on the
  left distance, the left threshold and the left latch only, and the right click and the
  right latch on their right counterparts only.
\<close>

theorem both_clicks_same_frame:
  "(\<exists>c h c' evs. \<not> left_click_latched c \<and> \<not> right_click_latched c
        \<and> left_pinch_dist h < left_pinch_threshold c
        \<and> right_pinch_dist h < right_pinch_threshold c
        \<and> update c h = Inr (c', evs)
        \<and> Click LeftButton \<in> set evs \<and> Click RightButton \<in> set evs)
   \<and> (\<forall>c h c' evs. update c h = Inr (c', evs) \<longrightarrow>
          (Click LeftButton \<in> set evs
             \<longleftrightarrow> left_pinch_dist h < left_pinch_threshold c \<and> \<not> left_click_latched c)
        \<and> (Click RightButton \<in> set evs
             \<longleftrightarrow> right_pinch_dist h < right_pinch_threshold c \<and> \<not> right_click_latched c)
        \<and> left_click_latched c' = (left_pinch_dist h < left_pinch_threshold c)
        \<and> right_click_latched c' = (right_pinch_dist h < right_pinch_threshold c))"
proof -
  have gen: "(Click LeftButton \<in> set evs
             \<longleftrightarrow> left_pinch_dist h < left_pinch_threshold c \<and> \<not> left_click_latched c)
        \<and> (Click RightButton \<in> set evs
             \<longleftrightarrow> right_pinch_dist h < right_pinch_threshold c \<and> \<not> right_click_latched c)
        \<and> left_click_latched c' = (left_pinch_dist h < left_pinch_threshold c)
        \<and> right_click_latched c' = (right_pinch_dist h < right_pinch_threshold c)"
    if u: "update c h = Inr (c', evs)" for c h c' evs
  proof -
    have "Click LeftButton \<in> set evs
             \<longleftrightarrow> left_pinch_dist h < left_pinch_threshold c \<and> \<not> left_click_latched c"
      using update_left_count [OF u] count_list_0_iff [of evs "Click LeftButton"]
      by (simp split: if_splits)
    moreover have "Click RightButton \<in> set evs
             \<longleftrightarrow> right_pinch_dist h < right_pinch_threshold c \<and> \<not> right_click_latched c"
      using update_right_count [OF u] count_list_0_iff [of evs "Click RightButton"]
      by (simp split: if_splits)
    ultimately show ?thesis
      using update_left_latch [OF u] update_right_latch [OF u] by simp
  qed
  obtain c' evs where u: "update main_controller double_pinch_frame = Inr (c', evs)"
    using update_ok_Inr [of double_pinch_frame main_controller] by auto
  have "Click LeftButton \<in> set evs \<and> Click RightButton \<in> set evs"
    using gen [OF u] by simp
  then have ex: "\<exists>c h c' evs. \<not> left_click_latched c \<and> \<not> right_click_latched c
        \<and> left_pinch_dist h < left_pinch_threshold c
        \<and> right_pinch_dist h < right_pinch_threshold c
        \<and> update c h = Inr (c', evs)
        \<and> Click LeftButton \<in> set evs \<and> Click RightButton \<in> set evs"
    using u
    by (intro exI [of _ main_controller] exI [of _ double_pinch_frame] exI [of _ c'] exI [of _ evs])
       simp
  show ?thesis using ex gen by blast
qed

theorem both_clicks_same_frame_witness:
  "\<exists>c' evs. update main_controller double_pinch_frame = Inr (c', evs)
     \<and> Click LeftButton \<in> set evs \<and> Click RightButton \<in> set evs
     \<and> left_click_latched c' \<and> right_click_latched c'"
proof -
  obtain c' evs where u: "update main_controller double_pinch_frame = Inr (c', evs)"
    using update_ok_Inr [of double_pinch_frame main_controller] by auto
  from both_clicks_same_frame [THEN conjunct2, rule_format, OF u]
  have "Click LeftButton \<in> set evs \<and> Click RightButton \<in> set evs
     \<and> left_click_latched c' \<and> right_click_latched c'" by simp
  with u show ?thesis by blast
qed

end
